theory Spec2Isabelle
  imports Complex_Main
begin

section \<open>Element arithmetic\<close>

text \<open>
  The tensors of \<^verbatim>\<open>encoding/functions/encoding.py\<close> hold floating-point numbers, and
  torch decides how two of them are subtracted, multiplied or divided, how a power is
  taken and in which order a reduction adds its operands. The model takes this arithmetic
  as a parameter and assumes nothing about it: no exactness, no associativity, no order
  of summation. \<open>el_sum\<close> is the reduction kernel, applied to the operands in index order;
  \<open>scalar\<close> converts a Python integer to an element; \<open>el_neg\<close>, \<open>el_finite\<close> and \<open>el_zero\<close>
  (the test \<^verbatim>\<open>x == 0\<close>) are not used by the code, only to state what it computes.
\<close>

record 'a arith =
  el_sub :: "'a \<Rightarrow> 'a \<Rightarrow> 'a"
  el_mul :: "'a \<Rightarrow> 'a \<Rightarrow> 'a"
  el_div :: "'a \<Rightarrow> 'a \<Rightarrow> 'a"
  el_pow :: "'a \<Rightarrow> nat \<Rightarrow> 'a"
  el_sum :: "'a list \<Rightarrow> 'a"
  scalar :: "int \<Rightarrow> 'a"
  el_neg :: "'a \<Rightarrow> 'a"
  el_finite :: "'a \<Rightarrow> bool"
  el_zero :: "'a \<Rightarrow> bool"

text \<open>
  Two laws of IEEE arithmetic under which the formulas of the spec, which write
  \<open>S[k] * d\<close> and \<open>- s\<close>, denote what the code computes as \<open>d * S[k]\<close> and \<open>s * (-1)\<close>:
  multiplication commutes, and multiplying by \<open>-1\<close> negates.
\<close>

definition mul_commutes :: "'a arith \<Rightarrow> bool" where
  "mul_commutes A \<longleftrightarrow> (\<forall>x y. el_mul A x y = el_mul A y x)"



subsection \<open>One arithmetic: exact, with the IEEE special values\<close>

text \<open>
  \<open>exact_arith\<close> computes on real numbers without rounding or overflow and treats the
  two infinities and NaN as IEEE does (\<open>0 / 0\<close>, \<open>0 * \<infinity>\<close> and \<open>\<infinity> - \<infinity>\<close> are NaN, \<open>x / 0\<close> is an
  infinity for \<open>x \<noteq> 0\<close>, NaN is absorbing). It agrees with double precision wherever
  double precision is exact; the examples below are evaluated in it.
\<close>

datatype fl = Fin real | PInf | NInf | NaN

fun fl_add :: "fl \<Rightarrow> fl \<Rightarrow> fl" where
  "fl_add NaN y = NaN"
| "fl_add x NaN = NaN"
| "fl_add (Fin a) (Fin b) = Fin (a + b)"
| "fl_add PInf NInf = NaN"
| "fl_add NInf PInf = NaN"
| "fl_add PInf y = PInf"
| "fl_add NInf y = NInf"
| "fl_add (Fin a) y = y"

fun fl_neg :: "fl \<Rightarrow> fl" where
  "fl_neg (Fin a) = Fin (- a)"
| "fl_neg PInf = NInf"
| "fl_neg NInf = PInf"
| "fl_neg NaN = NaN"

definition signed_inf :: "bool \<Rightarrow> fl" where
  "signed_inf positive = (if positive then PInf else NInf)"

fun fl_mul :: "fl \<Rightarrow> fl \<Rightarrow> fl" where
  "fl_mul NaN y = NaN"
| "fl_mul x NaN = NaN"
| "fl_mul (Fin a) (Fin b) = Fin (a * b)"
| "fl_mul (Fin a) PInf = (if a = 0 then NaN else signed_inf (0 < a))"
| "fl_mul (Fin a) NInf = (if a = 0 then NaN else signed_inf (a < 0))"
| "fl_mul PInf (Fin b) = (if b = 0 then NaN else signed_inf (0 < b))"
| "fl_mul NInf (Fin b) = (if b = 0 then NaN else signed_inf (b < 0))"
| "fl_mul PInf PInf = PInf"
| "fl_mul PInf NInf = NInf"
| "fl_mul NInf PInf = NInf"
| "fl_mul NInf NInf = PInf"

fun fl_div :: "fl \<Rightarrow> fl \<Rightarrow> fl" where
  "fl_div NaN y = NaN"
| "fl_div x NaN = NaN"
| "fl_div (Fin a) (Fin b) =
     (if b \<noteq> 0 then Fin (a / b) else if a = 0 then NaN else signed_inf (0 < a))"
| "fl_div (Fin a) PInf = Fin 0"
| "fl_div (Fin a) NInf = Fin 0"
| "fl_div PInf (Fin b) = signed_inf (0 \<le> b)"
| "fl_div NInf (Fin b) = signed_inf (b < 0)"
| "fl_div PInf y = NaN"
| "fl_div NInf y = NaN"

primrec fl_pow :: "fl \<Rightarrow> nat \<Rightarrow> fl" where
  "fl_pow x 0 = Fin 1"
| "fl_pow x (Suc n) = fl_mul x (fl_pow x n)"

primrec fl_sum :: "fl list \<Rightarrow> fl" where
  "fl_sum [] = Fin 0"
| "fl_sum (x # xs) = fl_add x (fl_sum xs)"

fun is_finite :: "fl \<Rightarrow> bool" where
  "is_finite (Fin a) = True"
| "is_finite x = False"

definition exact_arith :: "fl arith" where
  "exact_arith =
     \<lparr>el_sub = (\<lambda>x y. fl_add x (fl_neg y)), el_mul = fl_mul, el_div = fl_div,
      el_pow = fl_pow, el_sum = fl_sum, scalar = (\<lambda>z. Fin (of_int z)), el_neg = fl_neg,
      el_finite = is_finite, el_zero = (\<lambda>x. x = Fin 0)\<rparr>"

section \<open>Tensors, storage and the interpreter state\<close>

text \<open>
  A tensor is a strided view of a flat storage, as in torch: \<open>base\<close> names the storage,
  the element at multi-index \<open>idx\<close> lives at position \<open>offset + idx \<bullet> strides\<close> of it.
  Views (\<^verbatim>\<open>unsqueeze\<close>, \<^verbatim>\<open>expand\<close>, \<^verbatim>\<open>view\<close>) share the storage of
  their argument; every other operation allocates a new storage, and the in-place
  operations (\<^verbatim>\<open>pow_\<close>, \<^verbatim>\<open>mul_\<close>) overwrite the storage of their receiver.
\<close>

record tensor =
  base :: nat
  offset :: nat
  shape :: "nat list"
  strides :: "nat list"
  is_cuda :: bool

text \<open>
  The store holds the storages and the next free storage name. The state of a
  \<^verbatim>\<open>Function\<close> application adds the tensors that its context object \<^verbatim>\<open>ctx\<close>
  has saved. The tensor operations work on any extension of the store; the context is
  out of their reach.
\<close>

record 'a store =
  cells :: "nat \<Rightarrow> 'a list"
  nxt :: nat

record 'a state = "'a store" +
  saved_variables :: "tensor list"

datatype pyerr = IndexError | RuntimeError | ValueError

type_synonym ('r, 'a, 'z) M = "('a, 'z) store_scheme \<Rightarrow> (pyerr + 'r) \<times> ('a, 'z) store_scheme"

definition ret :: "'r \<Rightarrow> ('r, 'a, 'z) M" where
  "ret v \<sigma> = (Inr v, \<sigma>)"

definition lift :: "pyerr + 'r \<Rightarrow> ('r, 'a, 'z) M" where
  "lift r \<sigma> = (r, \<sigma>)"

definition bnd :: "('r, 'a, 'z) M \<Rightarrow> ('r \<Rightarrow> ('q, 'a, 'z) M) \<Rightarrow> ('q, 'a, 'z) M" where
  "bnd m f \<sigma> = (case m \<sigma> of (Inl e, \<sigma>') \<Rightarrow> (Inl e, \<sigma>') | (Inr v, \<sigma>') \<Rightarrow> f v \<sigma>')"

subsection \<open>Indexing\<close>

fun indices :: "nat list \<Rightarrow> nat list list" where
  "indices [] = [[]]"
| "indices (n # ns) = concat (map (\<lambda>i. map ((#) i) (indices ns)) [0..<n])"

fun dot :: "nat list \<Rightarrow> nat list \<Rightarrow> nat" where
  "dot (i # idx) (s # ss) = i * s + dot idx ss"
| "dot idx ss = 0"

fun contiguous_strides :: "nat list \<Rightarrow> nat list" where
  "contiguous_strides [] = []"
| "contiguous_strides (n # ns) = prod_list ns # contiguous_strides ns"

definition pos :: "tensor \<Rightarrow> nat list \<Rightarrow> nat" where
  "pos T idx = offset T + dot idx (strides T)"

definition rd :: "('a, 'z) store_scheme \<Rightarrow> tensor \<Rightarrow> nat list \<Rightarrow> 'a" where
  "rd \<sigma> T idx = cells \<sigma> (base T) ! pos T idx"

definition elements :: "('a, 'z) store_scheme \<Rightarrow> tensor \<Rightarrow> 'a list" where
  "elements \<sigma> T = map (rd \<sigma> T) (indices (shape T))"

subsection \<open>Allocation and in-place writes\<close>

definition tab :: "nat list \<Rightarrow> (nat list \<Rightarrow> 'a) \<Rightarrow> 'a list" where
  "tab sh f = map f (indices sh)"

definition fresh :: "nat \<Rightarrow> nat list \<Rightarrow> bool \<Rightarrow> tensor" where
  "fresh a sh dev =
     \<lparr>base = a, offset = 0, shape = sh, strides = contiguous_strides sh, is_cuda = dev\<rparr>"

definition new_tensor :: "nat list \<Rightarrow> bool \<Rightarrow> (nat list \<Rightarrow> 'a) \<Rightarrow> (tensor, 'a, 'z) M" where
  "new_tensor sh dev f \<sigma> =
     (Inr (fresh (nxt \<sigma>) sh dev),
      \<sigma>\<lparr>cells := (cells \<sigma>)(nxt \<sigma> := tab sh f), nxt := Suc (nxt \<sigma>)\<rparr>)"

definition write_all :: "(nat list \<Rightarrow> nat) \<Rightarrow> (nat list \<Rightarrow> 'a \<Rightarrow> 'a) \<Rightarrow> nat list list
    \<Rightarrow> 'a list \<Rightarrow> 'a list" where
  "write_all p g idxs d = fold (\<lambda>idx d. d[p idx := g idx (d ! p idx)]) idxs d"

definition write_each :: "tensor \<Rightarrow> (nat list \<Rightarrow> 'a \<Rightarrow> 'a) \<Rightarrow> (tensor, 'a, 'z) M" where
  "write_each T g \<sigma> =
     (Inr T,
      \<sigma>\<lparr>cells := (cells \<sigma>)
           (base T := write_all (pos T) g (indices (shape T)) (cells \<sigma> (base T)))\<rparr>)"

section \<open>The tensor operations the operators call\<close>

text \<open>
  Each operation fails the way torch does: \<open>IndexError\<close> for a dimension that does not
  exist, \<open>RuntimeError\<close> for shapes that do not fit. Tensors on different devices
  cannot be combined.
\<close>

definition tsize :: "tensor \<Rightarrow> nat \<Rightarrow> pyerr + nat" where
  "tsize T d = (if d < length (shape T) then Inr (shape T ! d) else Inl IndexError)"

definition unsqueeze :: "tensor \<Rightarrow> nat \<Rightarrow> pyerr + tensor" where
  "unsqueeze T d =
     (if d \<le> length (shape T)
      then Inr (T\<lparr>shape := take d (shape T) @ 1 # drop d (shape T),
                   strides := take d (strides T)
                     @ (if d < length (shape T) then shape T ! d * strides T ! d else 1)
                     # drop d (strides T)\<rparr>)
      else Inl IndexError)"

fun expand_strides :: "nat list \<Rightarrow> nat list \<Rightarrow> nat list \<Rightarrow> nat list" where
  "expand_strides (s # sh) (t # sizes) (r # st) =
     (if s = t then r else 0) # expand_strides sh sizes st"
| "expand_strides sh sizes st = []"

definition expand :: "tensor \<Rightarrow> nat list \<Rightarrow> pyerr + tensor" where
  "expand T sizes =
     (let pad = length sizes - length (shape T);
          sh = replicate pad 1 @ shape T;
          st = replicate pad 0 @ strides T
      in if length sizes < length (shape T) then Inl RuntimeError
         else if list_all2 (\<lambda>s t. s = t \<or> s = 1) sh sizes
         then Inr (T\<lparr>shape := sizes, strides := expand_strides sh sizes st\<rparr>)
         else Inl RuntimeError)"

text \<open>
  \<^verbatim>\<open>view\<close> needs as many elements as the new shape has, and strides that can express
  the new shape over the same storage. \<open>compute_stride\<close> is torch's algorithm: the old
  dimensions are cut, from the last to the first, into chunks that lie contiguously in
  memory, and each chunk has to be filled exactly by a run of the new dimensions.
  \<open>fill_view c tn vn vs acc\<close> takes new dimensions (\<open>vs\<close>, last first) while the chunk of
  \<open>tn\<close> elements is not full or the dimension has size 1, and gives each the stride
  \<open>vn * c\<close>.
\<close>

fun fill_view :: "nat \<Rightarrow> nat \<Rightarrow> nat \<Rightarrow> nat list \<Rightarrow> nat list \<Rightarrow> nat \<times> nat list \<times> nat list" where
  "fill_view c tn vn [] acc = (vn, [], acc)"
| "fill_view c tn vn (s # vs) acc =
     (if vn < tn \<or> s = 1 then fill_view c tn (vn * s) vs (vn * c # acc)
      else (vn, s # vs, acc))"

fun chunks :: "(nat \<times> nat) list \<Rightarrow> nat \<Rightarrow> nat \<Rightarrow> nat \<Rightarrow> nat list \<Rightarrow> nat list \<Rightarrow> nat list option" where
  "chunks [] c tn vn vs acc = (if vs = [] then Some acc else None)"
| "chunks [(sz, st)] c tn vn vs acc =
     (case fill_view c (tn * sz) vn vs acc of
        (vn', vs', acc') \<Rightarrow>
          if vn' \<noteq> tn * sz then None else if vs' = [] then Some acc' else None)"
| "chunks ((sz, st) # (sz1, st1) # rest) c tn vn vs acc =
     (if sz1 \<noteq> 1 \<and> st1 \<noteq> tn * sz * c
      then (case fill_view c (tn * sz) vn vs acc of
              (vn', vs', acc') \<Rightarrow>
                if vn' \<noteq> tn * sz then None
                else chunks ((sz1, st1) # rest) st1 1 1 vs' acc')
      else chunks ((sz1, st1) # rest) c (tn * sz) vn vs acc)"

fun resize_strides :: "nat list \<Rightarrow> nat list" where
  "resize_strides [] = []"
| "resize_strides [n] = [1]"
| "resize_strides (n # m # ns) =
     max m 1 * hd (resize_strides (m # ns)) # resize_strides (m # ns)"

definition compute_stride :: "nat list \<Rightarrow> nat list \<Rightarrow> nat list \<Rightarrow> nat list option" where
  "compute_stride oldshape oldstride newshape =
     (if oldshape = [] then Some (replicate (length newshape) 1)
      else if prod_list oldshape = 0
      then (if oldshape = newshape then Some oldstride else Some (resize_strides newshape))
      else chunks (rev (zip oldshape oldstride)) (last oldstride) 1 1 (rev newshape) [])"

definition view :: "tensor \<Rightarrow> nat list \<Rightarrow> pyerr + tensor" where
  "view T sizes =
     (if prod_list sizes \<noteq> prod_list (shape T) then Inl RuntimeError
      else case compute_stride (shape T) (strides T) sizes of
          None \<Rightarrow> Inl RuntimeError
        | Some st \<Rightarrow> Inr (T\<lparr>shape := sizes, strides := st\<rparr>))"

definition broadcast_shapes :: "nat list \<Rightarrow> nat list \<Rightarrow> pyerr + nat list" where
  "broadcast_shapes a b =
     (let n = max (length a) (length b);
          a' = replicate (n - length a) 1 @ a;
          b' = replicate (n - length b) 1 @ b
      in if list_all2 (\<lambda>x y. x = y \<or> x = 1 \<or> y = 1) a' b'
         then Inr (map2 (\<lambda>x y. if x = 1 then y else x) a' b')
         else Inl RuntimeError)"

text \<open>An elementwise operation of two tensors, broadcast to a common shape, into a new tensor.\<close>

definition binary :: "('a \<Rightarrow> 'a \<Rightarrow> 'a) \<Rightarrow> tensor \<Rightarrow> tensor \<Rightarrow> (tensor, 'a, 'z) M" where
  "binary f L R \<sigma> =
     (if is_cuda L \<noteq> is_cuda R then (Inl RuntimeError, \<sigma>)
      else case broadcast_shapes (shape L) (shape R) of
          Inl e \<Rightarrow> (Inl e, \<sigma>)
        | Inr sh \<Rightarrow>
            (case (expand L sh, expand R sh) of
               (Inr L', Inr R') \<Rightarrow>
                 new_tensor sh (is_cuda L) (\<lambda>idx. f (rd \<sigma> L' idx) (rd \<sigma> R' idx)) \<sigma>
             | _ \<Rightarrow> (Inl RuntimeError, \<sigma>)))"

definition sub :: "'a arith \<Rightarrow> tensor \<Rightarrow> tensor \<Rightarrow> (tensor, 'a, 'z) M" where
  "sub A = binary (el_sub A)"


text \<open>
  An in-place operation writes every element of its receiver; the other operand is
  broadcast to the receiver's shape and is read as it was before the call.
\<close>

definition mul_inplace :: "'a arith \<Rightarrow> tensor \<Rightarrow> tensor \<Rightarrow> (tensor, 'a, 'z) M" where
  "mul_inplace A T R \<sigma> =
     (if is_cuda T \<noteq> is_cuda R then (Inl RuntimeError, \<sigma>)
      else case expand R (shape T) of
          Inl e \<Rightarrow> (Inl e, \<sigma>)
        | Inr R' \<Rightarrow> write_each T (\<lambda>idx v. el_mul A v (rd \<sigma> R' idx)) \<sigma>)"


definition pow_inplace :: "'a arith \<Rightarrow> tensor \<Rightarrow> nat \<Rightarrow> (tensor, 'a, 'z) M" where
  "pow_inplace A T n = write_each T (\<lambda>idx v. el_pow A v n)"


text \<open>
  \<^verbatim>\<open>T.sum(dims)\<close>: the dimensions \<open>ds\<close> are summed out. \<open>keep_dims\<close> is the shape
  that remains; \<open>fill_dims ds 0 (shape T) idx\<close> lists, in row-major order, the indices
  of \<open>T\<close> that agree with \<open>idx\<close> on the dimensions that remain.
\<close>

fun keep_dims :: "nat list \<Rightarrow> nat \<Rightarrow> nat list \<Rightarrow> nat list" where
  "keep_dims ds p [] = []"
| "keep_dims ds p (n # sh) =
     (if p \<in> set ds then keep_dims ds (Suc p) sh else n # keep_dims ds (Suc p) sh)"

fun fill_dims :: "nat list \<Rightarrow> nat \<Rightarrow> nat list \<Rightarrow> nat list \<Rightarrow> nat list list" where
  "fill_dims ds p [] idx = [[]]"
| "fill_dims ds p (n # sh) idx =
     (if p \<in> set ds
      then concat (map (\<lambda>j. map ((#) j) (fill_dims ds (Suc p) sh idx)) [0..<n])
      else (case idx of
              [] \<Rightarrow> []
            | i # idx' \<Rightarrow> map ((#) i) (fill_dims ds (Suc p) sh idx')))"

definition tsum :: "'a arith \<Rightarrow> tensor \<Rightarrow> nat list \<Rightarrow> (tensor, 'a, 'z) M" where
  "tsum A T ds \<sigma> =
     (if \<exists>d \<in> set ds. length (shape T) \<le> d then (Inl IndexError, \<sigma>)
      else if \<not> distinct ds then (Inl RuntimeError, \<sigma>)
      else new_tensor (keep_dims ds 0 (shape T)) (is_cuda T)
             (\<lambda>idx. el_sum A (map (rd \<sigma> T) (fill_dims ds 0 (shape T) idx))) \<sigma>)"

definition save_for_backward :: "tensor list \<Rightarrow> 'a state \<Rightarrow> (pyerr + unit) \<times> 'a state" where
  "save_for_backward ts \<sigma> = (Inr (), \<sigma>\<lparr>saved_variables := ts\<rparr>)"

section \<open>ScaledL2\<close>

text \<open>
  \<^verbatim>\<open>ScaledL2.forward(ctx, X, C, S)\<close>, call by call in Python's evaluation order: the
  receiver of a method call is evaluated before its arguments.
\<close>

definition ScaledL2_forward ::
    "'a arith \<Rightarrow> tensor \<Rightarrow> tensor \<Rightarrow> tensor \<Rightarrow> 'a state \<Rightarrow> (pyerr + tensor) \<times> 'a state" where
  "ScaledL2_forward A X C S =
     bnd (lift (unsqueeze X 2)) (\<lambda>x1.
     bnd (lift (tsize X 0)) (\<lambda>b.
     bnd (lift (tsize X 1)) (\<lambda>n.
     bnd (lift (tsize C 0)) (\<lambda>k.
     bnd (lift (tsize C 1)) (\<lambda>d.
     bnd (lift (expand x1 [b, n, k, d])) (\<lambda>xe.
     bnd (lift (unsqueeze C 0)) (\<lambda>c1.
     bnd (lift (unsqueeze c1 0)) (\<lambda>c2.
     bnd (sub A xe c2) (\<lambda>r.
     bnd (pow_inplace A r 2) (\<lambda>r2.
     bnd (tsum A r2 [3]) (\<lambda>sl.
     bnd (lift (tsize C 0)) (\<lambda>k'.
     bnd (lift (view S [1, 1, k'])) (\<lambda>sv.
     bnd (mul_inplace A sl sv) (\<lambda>SL.
     bnd (save_for_backward [X, C, S, SL]) (\<lambda>u.
     ret SL)))))))))))))))"


text \<open>
  \<^verbatim>\<open>scaled_l2(X, C, S)\<close> is \<^verbatim>\<open>ScaledL2.apply(X, C, S)\<close>: the forward call with a
  context object that has saved nothing yet.
\<close>

definition scaled_l2 ::
    "'a arith \<Rightarrow> tensor \<Rightarrow> tensor \<Rightarrow> tensor \<Rightarrow> 'a state \<Rightarrow> (pyerr + tensor) \<times> 'a state" where
  "scaled_l2 A X C S \<sigma> = ScaledL2_forward A X C S (\<sigma>\<lparr>saved_variables := []\<rparr>)"

section \<open>Aggregate\<close>

text \<open>
  The two numeric backends \<^verbatim>\<open>lib.cpu\<close> and \<^verbatim>\<open>lib.gpu\<close> are compiled extensions;
  the operator takes them as a parameter. A backend receives tensors and works on the
  store: it cannot see the context object.
\<close>

record 'a backend =
  aggregate_forward ::
    "tensor \<Rightarrow> tensor \<Rightarrow> tensor \<Rightarrow> 'a store \<Rightarrow> (pyerr + tensor) \<times> 'a store"
  aggregate_backward ::
    "tensor \<Rightarrow> tensor \<Rightarrow> tensor \<Rightarrow> tensor
      \<Rightarrow> 'a store \<Rightarrow> (pyerr + tensor \<times> tensor \<times> tensor) \<times> 'a store"

record 'a lib =
  gpu :: "'a backend"
  cpu :: "'a backend"

definition call_backend ::
    "('a store \<Rightarrow> (pyerr + 'r) \<times> 'a store) \<Rightarrow> 'a state \<Rightarrow> (pyerr + 'r) \<times> 'a state" where
  "call_backend f \<sigma> =
     (case f \<lparr>cells = cells \<sigma>, nxt = nxt \<sigma>\<rparr> of
        (r, s) \<Rightarrow> (r, \<sigma>\<lparr>cells := cells s, nxt := nxt s\<rparr>))"

text \<open>\<^verbatim>\<open>_aggregate.forward(ctx, A, X, C)\<close>\<close>

definition aggregate_forward_op ::
    "'a lib \<Rightarrow> tensor \<Rightarrow> tensor \<Rightarrow> tensor \<Rightarrow> 'a state \<Rightarrow> (pyerr + tensor) \<times> 'a state" where
  "aggregate_forward_op l A X C =
     bnd (save_for_backward [A, X, C]) (\<lambda>u.
     bnd (if is_cuda A then call_backend (aggregate_forward (gpu l) A X C)
          else call_backend (aggregate_forward (cpu l) A X C)) (\<lambda>E.
     ret E))"

text \<open>\<^verbatim>\<open>_aggregate.backward(ctx, gradE)\<close>\<close>

definition aggregate_backward_op ::
    "'a lib \<Rightarrow> tensor \<Rightarrow> 'a state \<Rightarrow> (pyerr + tensor \<times> tensor \<times> tensor) \<times> 'a state" where
  "aggregate_backward_op l gradE \<sigma> =
     (case saved_variables \<sigma> of
        [A, X, C] \<Rightarrow>
          bnd (if is_cuda A then call_backend (aggregate_backward (gpu l) gradE A X C)
               else call_backend (aggregate_backward (cpu l) gradE A X C))
            (\<lambda>(gradA, gradX, gradC).
          ret (gradA, gradX, gradC)) \<sigma>
      | _ \<Rightarrow> (Inl ValueError, \<sigma>))"

text \<open>
  \<^verbatim>\<open>aggregate(A, X, C)\<close> is \<^verbatim>\<open>_aggregate.apply(A, X, C)\<close>: the forward call with a
  context object that has saved nothing yet.
\<close>

definition aggregate ::
    "'a lib \<Rightarrow> tensor \<Rightarrow> tensor \<Rightarrow> tensor \<Rightarrow> 'a state \<Rightarrow> (pyerr + tensor) \<times> 'a state" where
  "aggregate l A X C \<sigma> = aggregate_forward_op l A X C (\<sigma>\<lparr>saved_variables := []\<rparr>)"

text \<open>
  Modelled from the spec: \<^verbatim>\<open>lib.cpu.aggregate_forward\<close> and
  \<^verbatim>\<open>lib.gpu.aggregate_forward\<close>, the compiled kernels that the operator calls. The
  spec gives their contract: for \<open>A\<close> of shape \<open>(B, N, K)\<close>, \<open>X\<close> of shape \<open>(B, N, D)\<close>
  and \<open>C\<close> of shape \<open>(K, D)\<close> the result \<open>E\<close> has shape \<open>(B, K, D)\<close> and
  \<open>E[b, k, :] = \<Sum>\<^sub>i A[b, i, k] * (X[b, i, :] - C[k, :])\<close>; mismatched shapes fail with a shape
  error before any numeric work begins.
\<close>

definition aggregate_forward_spec ::
    "'a arith \<Rightarrow> tensor \<Rightarrow> tensor \<Rightarrow> tensor \<Rightarrow> 'a store \<Rightarrow> (pyerr + tensor) \<times> 'a store" where
  "aggregate_forward_spec F A X C \<sigma> =
     (case (shape A, shape X, shape C) of
        ([B, N, K], [B', N', D], [K', D']) \<Rightarrow>
          if B = B' \<and> N = N' \<and> K = K' \<and> D = D'
          then new_tensor [B, K, D] (is_cuda A)
                 (\<lambda>idx. el_sum F (map (\<lambda>i.
                    el_mul F (rd \<sigma> A [idx ! 0, i, idx ! 1])
                      (el_sub F (rd \<sigma> X [idx ! 0, i, idx ! 2]) (rd \<sigma> C [idx ! 1, idx ! 2])))
                    [0..<N]))
                 \<sigma>
          else (Inl RuntimeError, \<sigma>)
      | _ \<Rightarrow> (Inl RuntimeError, \<sigma>))"

section \<open>Well-formed arguments and example inputs\<close>

text \<open>
  A tensor argument of shape \<open>sh\<close>: it has one stride per dimension and its storage
  has been allocated; any strides and any offset are allowed.
\<close>

definition tensor_ok :: "('a, 'z) store_scheme \<Rightarrow> tensor \<Rightarrow> nat list \<Rightarrow> bool" where
  "tensor_ok \<sigma> T sh \<longleftrightarrow> shape T = sh \<and> length (strides T) = length sh \<and> base T < nxt \<sigma>"

text \<open>
  The valid arguments of \<^verbatim>\<open>scaled_l2\<close>: \<open>X\<close> of shape \<open>(B, N, D)\<close>, \<open>C\<close> of shape
  \<open>(K, D)\<close> and \<open>S\<close> of shape \<open>(K)\<close>, all on one device. A valid backward call finds them
  saved in the context together with an \<open>SL\<close> of shape \<open>(B, N, K)\<close>, and receives a
  gradient \<open>GSL\<close> of that shape.
\<close>

definition valid_inputs ::
    "('a, 'z) store_scheme \<Rightarrow> tensor \<Rightarrow> tensor \<Rightarrow> tensor \<Rightarrow> nat \<Rightarrow> nat \<Rightarrow> nat \<Rightarrow> nat \<Rightarrow> bool" where
  "valid_inputs \<sigma> X C S B N K D \<longleftrightarrow>
     tensor_ok \<sigma> X [B, N, D] \<and> tensor_ok \<sigma> C [K, D] \<and> tensor_ok \<sigma> S [K]
     \<and> is_cuda C = is_cuda X \<and> is_cuda S = is_cuda X"

definition valid_saved ::
    "'a state \<Rightarrow> tensor \<Rightarrow> tensor \<Rightarrow> tensor \<Rightarrow> tensor \<Rightarrow> tensor
      \<Rightarrow> nat \<Rightarrow> nat \<Rightarrow> nat \<Rightarrow> nat \<Rightarrow> bool" where
  "valid_saved \<sigma> X C S SL GSL B N K D \<longleftrightarrow>
     saved_variables \<sigma> = [X, C, S, SL] \<and> valid_inputs \<sigma> X C S B N K D
     \<and> tensor_ok \<sigma> SL [B, N, K] \<and> tensor_ok \<sigma> GSL [B, N, K]
     \<and> is_cuda SL = is_cuda X \<and> is_cuda GSL = is_cuda X"

text \<open>
  The valid arguments of \<^verbatim>\<open>aggregate\<close>: \<open>A\<close> of shape \<open>(B, N, K)\<close>, \<open>X\<close> of shape
  \<open>(B, N, D)\<close> and \<open>C\<close> of shape \<open>(K, D)\<close>.
\<close>

definition valid_aggregate_inputs ::
    "('a, 'z) store_scheme \<Rightarrow> tensor \<Rightarrow> tensor \<Rightarrow> tensor \<Rightarrow> nat \<Rightarrow> nat \<Rightarrow> nat \<Rightarrow> nat \<Rightarrow> bool" where
  "valid_aggregate_inputs \<sigma> A X C B N K D \<longleftrightarrow>
     tensor_ok \<sigma> A [B, N, K] \<and> tensor_ok \<sigma> X [B, N, D] \<and> tensor_ok \<sigma> C [K, D]"

text \<open>\<open>all_finite\<close>: no element of the tensor is an infinity or NaN.\<close>

definition all_finite :: "'a arith \<Rightarrow> ('a, 'z) store_scheme \<Rightarrow> tensor \<Rightarrow> bool" where
  "all_finite A \<sigma> T \<longleftrightarrow> list_all (el_finite A) (elements \<sigma> T)"

text \<open>
  \<open>kept n c \<sigma>\<close>: the storages below \<open>n\<close> exist in \<open>\<sigma>\<close> and hold what \<open>c\<close> holds.
  \<open>keeps n c m Q\<close>: the computation \<open>m\<close> leaves these storages as they are, whether it
  fails or not, and a result it returns satisfies \<open>Q\<close>.
\<close>

definition kept :: "nat \<Rightarrow> (nat \<Rightarrow> 'a list) \<Rightarrow> ('a, 'z) store_scheme \<Rightarrow> bool" where
  "kept n c \<sigma> \<longleftrightarrow> n \<le> nxt \<sigma> \<and> (\<forall>a<n. cells \<sigma> a = c a)"

definition keeps :: "nat \<Rightarrow> (nat \<Rightarrow> 'a list) \<Rightarrow> ('r, 'a, 'z) M \<Rightarrow> ('r \<Rightarrow> bool) \<Rightarrow> bool" where
  "keeps n c m Q \<longleftrightarrow>
     (\<forall>\<sigma> r \<sigma>'. kept n c \<sigma> \<longrightarrow> m \<sigma> = (r, \<sigma>') \<longrightarrow> kept n c \<sigma>' \<and> (\<forall>v. r = Inr v \<longrightarrow> Q v))"

text \<open>
  \<open>state_of ds ts\<close> is the state whose storages are the lists \<open>ds\<close>, in this order,
  and whose context has saved \<open>ts\<close>; \<open>fresh a sh False\<close> is then the contiguous CPU
  tensor of shape \<open>sh\<close> over storage \<open>a\<close>.
\<close>

definition state_of :: "'a list list \<Rightarrow> tensor list \<Rightarrow> 'a state" where
  "state_of ds ts =
     \<lparr>cells = (\<lambda>a. if a < length ds then ds ! a else []), nxt = length ds,
      saved_variables = ts\<rparr>"

section \<open>Row-major indexing\<close>

text \<open>
  The positions of a contiguous tensor enumerate its storage: the row-major position of
  the \<open>n\<close>-th index is \<open>n\<close>. An in-place write through such a tensor therefore
  rewrites its storage element by element.
\<close>

lemma length_indices: "length (indices sh) = prod_list sh"
proof (induction sh)
  case Nil
  show ?case by simp
next
  case (Cons n ns)
  have "length (concat (map (\<lambda>i. map ((#) i) (indices ns)) [0..<n])) = n * prod_list ns"
    by (simp add: length_concat comp_def sum_list_triv Cons.IH)
  then show ?case by simp
qed

lemma concat_blocks: "concat (map (\<lambda>i. map (\<lambda>j. i * m + j) [0..<m]) [0..<n]) = [0..<n * m]"
proof (induction n)
  case 0
  show ?case by simp
next
  case (Suc n)
  have "map (\<lambda>j. n * m + j) [0..<m] = [n * m..<n * m + m]"
    using map_add_upt [of "n * m" m] by (simp add: add.commute)
  moreover have "[0..<Suc n * m] = [0..<n * m] @ [n * m..<n * m + m]"
    using upt_add_eq_append [of 0 "n * m" m] by (simp add: add.commute)
  ultimately show ?case
    using Suc.IH by simp
qed

lemma ravel_indices:
  "map (\<lambda>idx. dot idx (contiguous_strides sh)) (indices sh) = [0..<prod_list sh]"
proof (induction sh)
  case Nil
  show ?case by simp
next
  case (Cons n ns)
  have "map (\<lambda>idx. dot idx (contiguous_strides (n # ns))) (indices (n # ns))
      = concat (map (\<lambda>i. map (\<lambda>j. i * prod_list ns + j)
           (map (\<lambda>idx. dot idx (contiguous_strides ns)) (indices ns))) [0..<n])"
    by (simp add: map_concat comp_def)
  also have "\<dots> = [0..<n * prod_list ns]"
    by (simp only: Cons.IH concat_blocks)
  finally show ?case by simp
qed

lemma set_indices: "set (indices sh) = {idx. list_all2 (<) idx sh}"
proof (induction sh)
  case Nil
  show ?case by auto
next
  case (Cons n ns)
  show ?case
    by (auto simp: Cons.IH list_all2_Cons2)
qed

lemma ravel_nth:
  assumes "idx \<in> set (indices sh)"
  shows "dot idx (contiguous_strides sh) < prod_list sh"
    and "indices sh ! dot idx (contiguous_strides sh) = idx"
proof -
  from assms obtain n where n: "n < length (indices sh)" "indices sh ! n = idx"
    by (auto simp: in_set_conv_nth)
  have "map (\<lambda>idx. dot idx (contiguous_strides sh)) (indices sh) ! n = [0..<prod_list sh] ! n"
    by (simp only: ravel_indices)
  with n have eq: "dot idx (contiguous_strides sh) = n"
    by (simp add: length_indices)
  from n eq show "dot idx (contiguous_strides sh) < prod_list sh"
    by (simp add: length_indices)
  from n eq show "indices sh ! dot idx (contiguous_strides sh) = idx"
    by simp
qed

lemma tab_nth:
  "idx \<in> set (indices sh) \<Longrightarrow> tab sh f ! dot idx (contiguous_strides sh) = f idx"
  by (simp add: tab_def ravel_nth length_indices)

lemma length_tab: "length (tab sh f) = prod_list sh"
  by (simp add: tab_def length_indices)

lemma fold_write_blocks:
  "map p idxs = [k..<k + length idxs] \<Longrightarrow> k + length idxs \<le> length d \<Longrightarrow>
   fold (\<lambda>idx d. d[p idx := g idx (d ! p idx)]) idxs d
     = take k d @ map2 g idxs (take (length idxs) (drop k d)) @ drop (k + length idxs) d"
proof (induction idxs arbitrary: k d)
  case Nil
  then show ?case by simp
next
  case (Cons i idxs)
  from Cons.prems(1) have pi: "p i = k" and rest: "map p idxs = [Suc k..<Suc k + length idxs]"
    by (simp_all add: upt_rec)
  from Cons.prems(2) have k: "k < length d" by simp
  let ?d = "d[k := g i (d ! k)]"
  have "fold (\<lambda>idx d. d[p idx := g idx (d ! p idx)]) idxs ?d
     = take (Suc k) ?d @ map2 g idxs (take (length idxs) (drop (Suc k) ?d))
        @ drop (Suc k + length idxs) ?d"
    using Cons.prems(2) by (intro Cons.IH [OF rest]) simp
  moreover have "take (Suc k) ?d = take k d @ [g i (d ! k)]"
    using k by (simp add: take_Suc_conv_app_nth)
  moreover have "drop (Suc k) ?d = drop (Suc k) d" by simp
  moreover have "drop (Suc k + length idxs) ?d = drop (Suc k + length idxs) d" by simp
  moreover have "take (Suc (length idxs)) (drop k d) = d ! k # take (length idxs) (drop (Suc k) d)"
    using k by (simp add: Cons_nth_drop_Suc [symmetric])
  ultimately show ?case
    using pi by simp
qed

lemma write_all_tab:
  "write_all (\<lambda>idx. dot idx (contiguous_strides sh)) g (indices sh) (tab sh f)
     = tab sh (\<lambda>idx. g idx (f idx))"
proof -
  have "map (\<lambda>idx. dot idx (contiguous_strides sh)) (indices sh) = [0..<0 + length (indices sh)]"
    by (simp add: ravel_indices length_indices)
  then have "fold (\<lambda>idx d. d[dot idx (contiguous_strides sh) := g idx (d ! dot idx (contiguous_strides sh))])
        (indices sh) (tab sh f)
     = take 0 (tab sh f) @ map2 g (indices sh) (take (length (indices sh)) (drop 0 (tab sh f)))
        @ drop (0 + length (indices sh)) (tab sh f)"
    by (rule fold_write_blocks) (simp add: length_tab length_indices)
  then show ?thesis
    by (simp add: write_all_def tab_def length_indices zip_map2 map_zip_map2 zip_same_conv_map comp_def)
qed

section \<open>Reading through views and fresh tensors\<close>

declare indices.simps [simp del]

lemma pos_fresh: "pos (fresh a sh dev) = (\<lambda>idx. dot idx (contiguous_strides sh))"
  by (rule ext) (simp add: pos_def fresh_def)

lemma rd_fresh:
  "cells \<sigma> a = tab sh f \<Longrightarrow> idx \<in> set (indices sh) \<Longrightarrow> rd \<sigma> (fresh a sh dev) idx = f idx"
  by (simp add: rd_def pos_def fresh_def tab_nth)

lemma write_each_fresh:
  "cells \<sigma> a = tab sh f \<Longrightarrow>
   write_each (fresh a sh dev) g \<sigma>
     = (Inr (fresh a sh dev), \<sigma>\<lparr>cells := (cells \<sigma>)(a := tab sh (\<lambda>idx. g idx (f idx)))\<rparr>)"
  by (simp add: write_each_def pos_fresh write_all_tab) (simp add: fresh_def write_all_tab)

lemma rd_via: "base T' = base T \<Longrightarrow> pos T' idx' = pos T idx \<Longrightarrow> rd \<sigma> T' idx' = rd \<sigma> T idx"
  by (simp add: rd_def)

lemma rd_frame: "cells \<sigma>' (base T) = cells \<sigma> (base T) \<Longrightarrow> rd \<sigma>' T idx = rd \<sigma> T idx"
  by (simp add: rd_def)

lemma expand_strides_same: "length st = length sh \<Longrightarrow> expand_strides sh sh st = st"
proof (induction sh arbitrary: st)
  case Nil
  then show ?case by simp
next
  case (Cons s sh)
  then obtain r st' where "st = r # st'" "length st' = length sh"
    by (cases st) auto
  with Cons.IH show ?case by simp
qed

lemma expand_same: "shape T = sizes \<Longrightarrow> length (strides T) = length sizes \<Longrightarrow> expand T sizes = Inr T"
  by (simp add: expand_def expand_strides_same list_all2_same)

lemma in_indices3: "[b, i, k] \<in> set (indices [B, N, K]) \<longleftrightarrow> b < B \<and> i < N \<and> k < K"
  unfolding set_indices by simp

lemma in_indices4: "[b, i, k, j] \<in> set (indices [B, N, K, D]) \<longleftrightarrow> b < B \<and> i < N \<and> k < K \<and> j < D"
  unfolding set_indices by simp



lemma xe_views:
  assumes "shape X = [B, N, Dx]" "length (strides X) = 3" "Dx = D \<or> Dx = 1"
  shows "\<exists>x1 xe. unsqueeze X 2 = Inr x1 \<and> expand x1 [B, N, K, D] = Inr xe
     \<and> base xe = base X \<and> shape xe = [B, N, K, D] \<and> is_cuda xe = is_cuda X
     \<and> length (strides xe) = 4
     \<and> (\<forall>b i k j. k < K \<longrightarrow> j < D \<longrightarrow>
           pos xe [b, i, k, j] = pos X [b, i, if Dx = D then j else 0])"
proof -
  from assms(2) obtain s0 s1 s2 where st: "strides X = [s0, s1, s2]"
    by (auto simp: length_Suc_conv eval_nat_numeral)
  show ?thesis
    using assms(1,3) st
    by (auto simp: unsqueeze_def expand_def pos_def)
qed

lemma c2_views:
  assumes "shape C = [K, D]" "length (strides C) = 2"
  shows "\<exists>c1 c2 c2'. unsqueeze C 0 = Inr c1 \<and> unsqueeze c1 0 = Inr c2
     \<and> shape c2 = [1, 1, K, D] \<and> is_cuda c2 = is_cuda C
     \<and> expand c2 [B, N, K, D] = Inr c2' \<and> base c2' = base C
     \<and> (\<forall>b i k j. b < B \<longrightarrow> i < N \<longrightarrow> pos c2' [b, i, k, j] = pos C [k, j])"
proof -
  from assms(2) obtain t0 t1 where st: "strides C = [t0, t1]"
    by (auto simp: length_Suc_conv eval_nat_numeral)
  show ?thesis
    using assms(1) st
    by (auto simp: unsqueeze_def expand_def pos_def)
qed

lemma sv_views:
  assumes "shape S = [K]" "length (strides S) = 1"
  shows "\<exists>sv sv'. view S [1, 1, K] = Inr sv \<and> shape sv = [1, 1, K] \<and> is_cuda sv = is_cuda S
     \<and> expand sv [B, N, K] = Inr sv' \<and> base sv' = base S
     \<and> (\<forall>b i k. b < B \<longrightarrow> i < N \<longrightarrow> k < K \<longrightarrow> pos sv' [b, i, k] = pos S [k])"
proof -
  from assms(2) obtain u where st: "strides S = [u]"
    by (auto simp: length_Suc_conv)
  show ?thesis
  proof (cases "K = 0")
    case True
    with assms(1) st show ?thesis
      by (auto simp: view_def compute_stride_def expand_def pos_def)
  next
    case False
    then have "Suc 0 < K \<or> K = Suc 0" by auto
    with False assms(1) st show ?thesis
      by (auto simp: view_def compute_stride_def expand_def pos_def)
  qed
qed

lemma broadcast_onto:
  "length b = length a \<Longrightarrow> list_all2 (\<lambda>s t. s = t \<or> s = 1) b a \<Longrightarrow> broadcast_shapes a b = Inr a"
proof -
  assume len: "length b = length a" and ok: "list_all2 (\<lambda>s t. s = t \<or> s = 1) b a"
  from ok have "list_all2 (\<lambda>x y. x = y \<or> x = 1 \<or> y = 1) a b \<and> map2 (\<lambda>x y. if x = 1 then y else x) a b = a"
    by (induction b a rule: list_all2_induct) auto
  with len show ?thesis
    by (simp add: broadcast_shapes_def)
qed

lemma binary_eval:
  "is_cuda R = is_cuda L \<Longrightarrow> broadcast_shapes (shape L) (shape R) = Inr sh \<Longrightarrow>
   expand L sh = Inr L' \<Longrightarrow> expand R sh = Inr R' \<Longrightarrow>
   binary f L R \<sigma> = new_tensor sh (is_cuda L) (\<lambda>idx. f (rd \<sigma> L' idx) (rd \<sigma> R' idx)) \<sigma>"
  by (simp add: binary_def)

section \<open>The forward pass of ScaledL2, step by step\<close>

lemma fill_3:
  "fill_dims [3] 0 [B, N, K, D] [b, i, k] = map (\<lambda>j. [b, i, k, j]) [0..<D]"
  by (simp add: comp_def)




lemma map_upt_cong: "(\<And>k. k < K \<Longrightarrow> f k = g k) \<Longrightarrow> map f [0..<K] = map g [0..<K]"
  by (rule map_cong) simp_all


lemma forward_eval:
  assumes X: "shape X = [B, N, Dx]" "length (strides X) = 3" "base X < nxt \<sigma>"
    and C: "shape C = [K, D]" "length (strides C) = 2" "base C < nxt \<sigma>"
    and S: "shape S = [K]" "length (strides S) = 1" "base S < nxt \<sigma>"
    and dev: "is_cuda C = is_cuda X" "is_cuda S = is_cuda X"
    and D: "Dx = D \<or> Dx = 1"
  shows "\<exists>G1 G2. ScaledL2_forward A X C S \<sigma> =
       (Inr (fresh (Suc (nxt \<sigma>)) [B, N, K] (is_cuda X)),
        \<sigma>\<lparr>cells := (cells \<sigma>)(nxt \<sigma> := tab [B, N, K, D] G1, Suc (nxt \<sigma>) := tab [B, N, K] G2),
          nxt := Suc (Suc (nxt \<sigma>)),
          saved_variables := [X, C, S, fresh (Suc (nxt \<sigma>)) [B, N, K] (is_cuda X)]\<rparr>)
     \<and> (\<forall>b i k. b < B \<longrightarrow> i < N \<longrightarrow> k < K \<longrightarrow>
          G2 [b, i, k] = el_mul A
            (el_sum A (map (\<lambda>j. el_pow A
               (el_sub A (rd \<sigma> X [b, i, if Dx = D then j else 0]) (rd \<sigma> C [k, j])) 2) [0..<D]))
            (rd \<sigma> S [k]))"
proof -
  obtain x1 xe where x1: "unsqueeze X 2 = Inr x1" and xe: "expand x1 [B, N, K, D] = Inr xe"
    and xe_base: "base xe = base X" and xe_shape: "shape xe = [B, N, K, D]"
    and xe_dev: "is_cuda xe = is_cuda X" and xe_len: "length (strides xe) = 4"
    and xe_pos: "\<And>b i k j. k < K \<Longrightarrow> j < D \<Longrightarrow>
           pos xe [b, i, k, j] = pos X [b, i, if Dx = D then j else 0]"
    using xe_views [OF X(1,2) D, of K] by blast
  obtain c1 c2 c2' where c1: "unsqueeze C 0 = Inr c1" and c2: "unsqueeze c1 0 = Inr c2"
    and c2_shape: "shape c2 = [1, 1, K, D]" and c2_dev: "is_cuda c2 = is_cuda C"
    and c2': "expand c2 [B, N, K, D] = Inr c2'" and c2_base: "base c2' = base C"
    and c2_pos: "\<And>b i k j. b < B \<Longrightarrow> i < N \<Longrightarrow> pos c2' [b, i, k, j] = pos C [k, j]"
    using c2_views [OF C(1,2), of B N] by blast
  obtain sv sv' where sv: "view S [1, 1, K] = Inr sv" and sv_shape: "shape sv = [1, 1, K]"
    and sv_dev: "is_cuda sv = is_cuda S" and sv': "expand sv [B, N, K] = Inr sv'"
    and sv_base: "base sv' = base S"
    and sv_pos: "\<And>b i k. b < B \<Longrightarrow> i < N \<Longrightarrow> k < K \<Longrightarrow> pos sv' [b, i, k] = pos S [k]"
    using sv_views [OF S(1,2), of B N] by blast
  define n where "n = nxt \<sigma>"
  define dv where "dv = is_cuda X"
  define F1 where "F1 = (\<lambda>idx. el_sub A (rd \<sigma> xe idx) (rd \<sigma> c2' idx))"
  define r where "r = fresh n [B, N, K, D] dv"
  define \<sigma>1 where "\<sigma>1 = \<sigma>\<lparr>cells := (cells \<sigma>)(n := tab [B, N, K, D] F1), nxt := Suc n\<rparr>"
  define F2 where "F2 = (\<lambda>idx. el_pow A (F1 idx) 2)"
  define \<sigma>2 where "\<sigma>2 = \<sigma>1\<lparr>cells := (cells \<sigma>1)(n := tab [B, N, K, D] F2)\<rparr>"
  define F3 where "F3 = (\<lambda>idx. el_sum A (map (rd \<sigma>2 r) (fill_dims [3] 0 [B, N, K, D] idx)))"
  define sl where "sl = fresh (Suc n) [B, N, K] dv"
  define \<sigma>3 where "\<sigma>3 = \<sigma>2\<lparr>cells := (cells \<sigma>2)(Suc n := tab [B, N, K] F3), nxt := Suc (Suc n)\<rparr>"
  define G2 where "G2 = (\<lambda>idx. el_mul A (F3 idx) (rd \<sigma>3 sv' idx))"
  define \<sigma>4 where "\<sigma>4 = \<sigma>3\<lparr>cells := (cells \<sigma>3)(Suc n := tab [B, N, K] G2)\<rparr>"
  have bc: "broadcast_shapes (shape xe) (shape c2) = Inr [B, N, K, D]"
    by (simp add: xe_shape c2_shape broadcast_onto)
  have step1: "sub A xe c2 \<sigma> = (Inr r, \<sigma>1)"
    unfolding sub_def
    by (subst binary_eval [OF _ bc expand_same c2'])
       (simp_all add: xe_shape xe_len xe_dev c2_dev dev new_tensor_def r_def \<sigma>1_def n_def F1_def dv_def)
  have step2: "pow_inplace A r 2 \<sigma>1 = (Inr r, \<sigma>2)"
    unfolding pow_inplace_def r_def
    by (subst write_each_fresh [where f = F1]) (simp_all add: \<sigma>1_def \<sigma>2_def F2_def)
  have step3: "tsum A r [3] \<sigma>2 = (Inr sl, \<sigma>3)"
    by (simp add: tsum_def r_def fresh_def new_tensor_def \<sigma>1_def \<sigma>2_def \<sigma>3_def sl_def F3_def)
  have step4: "mul_inplace A sl sv \<sigma>3 = (Inr sl, \<sigma>4)"
  proof -
    have "expand sv (shape sl) = Inr sv'" "is_cuda sl = is_cuda sv"
      by (simp_all add: sl_def fresh_def sv' sv_dev dev dv_def)
    then have "mul_inplace A sl sv \<sigma>3 = write_each sl (\<lambda>idx v. el_mul A v (rd \<sigma>3 sv' idx)) \<sigma>3"
      by (simp add: mul_inplace_def)
    also have "\<dots> = (Inr sl, \<sigma>4)"
      unfolding sl_def
      by (subst write_each_fresh [where f = F3]) (simp_all add: \<sigma>3_def \<sigma>4_def G2_def)
    finally show ?thesis .
  qed
  have sv0: "view S [Suc 0, Suc 0, K] = Inr sv"
    using sv by simp
  have run: "ScaledL2_forward A X C S \<sigma> = (Inr sl, \<sigma>4\<lparr>saved_variables := [X, C, S, sl]\<rparr>)"
    by (simp add: ScaledL2_forward_def bnd_def lift_def ret_def x1 xe c1 c2 sv0 tsize_def X C
        step1 step2 step3 step4 save_for_backward_def)
  have final: "\<sigma>4\<lparr>saved_variables := [X, C, S, sl]\<rparr> =
      \<sigma>\<lparr>cells := (cells \<sigma>)(n := tab [B, N, K, D] F2, Suc n := tab [B, N, K] G2),
        nxt := Suc (Suc n), saved_variables := [X, C, S, sl]\<rparr>"
    by (simp add: \<sigma>1_def \<sigma>2_def \<sigma>3_def \<sigma>4_def)
  have elt: "G2 [b, i, k] = el_mul A
            (el_sum A (map (\<lambda>j. el_pow A
               (el_sub A (rd \<sigma> X [b, i, if Dx = D then j else 0]) (rd \<sigma> C [k, j])) 2) [0..<D]))
            (rd \<sigma> S [k])"
    if "b < B" "i < N" "k < K" for b i k
  proof -
    have cell2: "cells \<sigma>2 n = tab [B, N, K, D] F2"
      by (simp add: \<sigma>2_def)
    have inner: "rd \<sigma>2 r [b, i, k, j]
        = el_pow A (el_sub A (rd \<sigma> X [b, i, if Dx = D then j else 0]) (rd \<sigma> C [k, j])) 2"
      if "j < D" for j
    proof -
      have "rd \<sigma>2 r [b, i, k, j] = F2 [b, i, k, j]"
        unfolding r_def using that \<open>b < B\<close> \<open>i < N\<close> \<open>k < K\<close>
        by (subst rd_fresh [OF cell2]) (simp_all add: in_indices4)
      moreover have "rd \<sigma> xe [b, i, k, j] = rd \<sigma> X [b, i, if Dx = D then j else 0]"
        using xe_base xe_pos [OF \<open>k < K\<close> that] by (rule rd_via)
      moreover have "rd \<sigma> c2' [b, i, k, j] = rd \<sigma> C [k, j]"
        using c2_base c2_pos [OF \<open>b < B\<close> \<open>i < N\<close>] by (rule rd_via)
      ultimately show ?thesis by (simp add: F2_def F1_def)
    qed
    have "map (\<lambda>j. rd \<sigma>2 r [b, i, k, j]) [0..<D]
        = map (\<lambda>j. el_pow A
            (el_sub A (rd \<sigma> X [b, i, if Dx = D then j else 0]) (rd \<sigma> C [k, j])) 2) [0..<D]"
      by (rule map_upt_cong) (rule inner)
    then have "F3 [b, i, k] = el_sum A (map (\<lambda>j. el_pow A
               (el_sub A (rd \<sigma> X [b, i, if Dx = D then j else 0]) (rd \<sigma> C [k, j])) 2) [0..<D])"
      unfolding F3_def fill_3 map_map comp_def by (rule arg_cong)
    moreover have "rd \<sigma>3 sv' [b, i, k] = rd \<sigma> S [k]"
    proof -
      have "cells \<sigma>3 (base S) = cells \<sigma> (base S)"
        using S(3) by (simp add: \<sigma>1_def \<sigma>2_def \<sigma>3_def n_def)
      then have "rd \<sigma>3 S [k] = rd \<sigma> S [k]" by (rule rd_frame)
      moreover have "rd \<sigma>3 sv' [b, i, k] = rd \<sigma>3 S [k]"
        using sv_base sv_pos [OF that] by (rule rd_via)
      ultimately show ?thesis by simp
    qed
    ultimately show ?thesis by (simp add: G2_def)
  qed
  show ?thesis
  proof (rule exI [of _ F2], rule exI [of _ G2], intro conjI allI impI)
    show "ScaledL2_forward A X C S \<sigma> =
       (Inr (fresh (Suc (nxt \<sigma>)) [B, N, K] (is_cuda X)),
        \<sigma>\<lparr>cells := (cells \<sigma>)(nxt \<sigma> := tab [B, N, K, D] F2,
                   Suc (nxt \<sigma>) := tab [B, N, K] G2),
          nxt := Suc (Suc (nxt \<sigma>)),
          saved_variables := [X, C, S, fresh (Suc (nxt \<sigma>)) [B, N, K] (is_cuda X)]\<rparr>)"
      using run final unfolding n_def sl_def dv_def by simp
  next
    fix b i k
    assume "b < B" "i < N" "k < K"
    then show "G2 [b, i, k] = el_mul A
            (el_sum A (map (\<lambda>j. el_pow A
               (el_sub A (rd \<sigma> X [b, i, if Dx = D then j else 0]) (rd \<sigma> C [k, j])) 2) [0..<D]))
            (rd \<sigma> S [k])"
      by (rule elt)
  qed
qed

section \<open>The backward pass of ScaledL2, step by step\<close>


lemma length_strides_fresh: "length (strides (fresh a sh dev)) = length sh"
  by (induction sh) (simp_all add: fresh_def)


section \<open>What a valid forward and a valid backward call return\<close>

lemma rd_saved [simp]: "rd (\<sigma>\<lparr>saved_variables := ts\<rparr>) T idx = rd \<sigma> T idx"
  by (simp add: rd_def)

lemma tensor_ok_fresh: "a < nxt \<sigma> \<Longrightarrow> tensor_ok \<sigma> (fresh a sh dev) sh"
  by (simp add: tensor_ok_def length_strides_fresh) (simp add: fresh_def)

lemma forward_result:
  assumes "tensor_ok \<sigma> X [B, N, Dx]" and "tensor_ok \<sigma> C [K, D]" and "tensor_ok \<sigma> S [K]"
    and "is_cuda C = is_cuda X" and "is_cuda S = is_cuda X" and "Dx = D \<or> Dx = 1"
  shows "\<exists>SL \<sigma>'. scaled_l2 A X C S \<sigma> = (Inr SL, \<sigma>') \<and> shape SL = [B, N, K]
     \<and> (\<forall>b<B. \<forall>i<N. \<forall>k<K.
          rd \<sigma>' SL [b, i, k] = el_mul A
            (el_sum A (map (\<lambda>d. el_pow A
               (el_sub A (rd \<sigma> X [b, i, if Dx = D then d else 0]) (rd \<sigma> C [k, d])) 2) [0..<D]))
            (rd \<sigma> S [k]))
     \<and> (\<forall>a<nxt \<sigma>. cells \<sigma>' a = cells \<sigma> a) \<and> nxt \<sigma>' = nxt \<sigma> + 2
     \<and> saved_variables \<sigma>' = [X, C, S, SL]
     \<and> tensor_ok \<sigma>' SL [B, N, K] \<and> is_cuda SL = is_cuda X"
proof -
  let ?\<sigma> = "\<sigma>\<lparr>saved_variables := []\<rparr>"
  let ?SL = "fresh (Suc (nxt \<sigma>)) [B, N, K] (is_cuda X)"
  from assms obtain G1 G2 where run: "ScaledL2_forward A X C S ?\<sigma> =
       (Inr ?SL,
        ?\<sigma>\<lparr>cells := (cells ?\<sigma>)(nxt ?\<sigma> := tab [B, N, K, D] G1, Suc (nxt ?\<sigma>) := tab [B, N, K] G2),
          nxt := Suc (Suc (nxt ?\<sigma>)),
          saved_variables := [X, C, S, fresh (Suc (nxt ?\<sigma>)) [B, N, K] (is_cuda X)]\<rparr>)"
    and elt: "\<And>b i k. b < B \<Longrightarrow> i < N \<Longrightarrow> k < K \<Longrightarrow>
          G2 [b, i, k] = el_mul A
            (el_sum A (map (\<lambda>j. el_pow A
               (el_sub A (rd ?\<sigma> X [b, i, if Dx = D then j else 0]) (rd ?\<sigma> C [k, j])) 2) [0..<D]))
            (rd ?\<sigma> S [k])"
    using forward_eval [of X B N Dx ?\<sigma> C K D S A] unfolding tensor_ok_def by auto
  let ?\<sigma>' = "?\<sigma>\<lparr>cells := (cells ?\<sigma>)(nxt ?\<sigma> := tab [B, N, K, D] G1, Suc (nxt ?\<sigma>) := tab [B, N, K] G2),
          nxt := Suc (Suc (nxt ?\<sigma>)),
          saved_variables := [X, C, S, fresh (Suc (nxt ?\<sigma>)) [B, N, K] (is_cuda X)]\<rparr>"
  have "rd ?\<sigma>' ?SL [b, i, k] = G2 [b, i, k]" if "b < B" "i < N" "k < K" for b i k
    using that by (subst rd_fresh [where f = G2]) (simp_all add: in_indices3)
  with elt have "\<forall>b<B. \<forall>i<N. \<forall>k<K. rd ?\<sigma>' ?SL [b, i, k] = el_mul A
            (el_sum A (map (\<lambda>d. el_pow A
               (el_sub A (rd \<sigma> X [b, i, if Dx = D then d else 0]) (rd \<sigma> C [k, d])) 2) [0..<D]))
            (rd \<sigma> S [k])"
    by simp
  moreover have "shape ?SL = [B, N, K]" "is_cuda ?SL = is_cuda X"
    by (simp_all add: fresh_def)
  moreover have "tensor_ok ?\<sigma>' ?SL [B, N, K]"
    by (rule tensor_ok_fresh) simp
  moreover have "\<forall>a<nxt \<sigma>. cells ?\<sigma>' a = cells \<sigma> a" "nxt ?\<sigma>' = nxt \<sigma> + 2"
    "saved_variables ?\<sigma>' = [X, C, S, ?SL]"
    by simp_all
  ultimately show ?thesis
    using run unfolding scaled_l2_def by blast
qed


lemma fl_mul_commute: "fl_mul x y = fl_mul y x"
  by (cases x; cases y) (simp_all add: mult.commute)








lemma exact_mul_commutes: "mul_commutes exact_arith"
  using fl_mul_commute by (simp add: mul_commutes_def exact_arith_def)



section \<open>The claims about ScaledL2\<close>

lemmas example_defs = tensor_ok_def valid_inputs_def valid_saved_def fresh_def state_of_def
  rd_def pos_def exact_arith_def

text \<open>
  Claim C1. For \<open>X\<close> of shape \<open>(B, N, D)\<close>, \<open>C\<close> of shape \<open>(K, D)\<close> and \<open>S\<close> of shape
  \<open>(K)\<close>, with any strides, \<^verbatim>\<open>scaled_l2(X, C, S)\<close> returns a tensor \<open>SL\<close> of shape
  \<open>(B, N, K)\<close> with \<open>SL[b, i, k] = S[k] * \<Sum>\<^sub>d (X[b, i, d] - C[k, d])\<^sup>2\<close>, in whatever
  arithmetic the elements have, provided its multiplication commutes (the code
  multiplies the sum by \<open>S[k]\<close>, the formula \<open>S[k]\<close> by the sum). The witness is the
  instance the claim names, in exact arithmetic: \<open>X = [[[2]]]\<close>, \<open>C = [[0]]\<close>, \<open>S = [2]\<close>
  give \<open>[[[8]]]\<close>.
\<close>

theorem scaled_l2_formula:
  assumes "valid_inputs \<sigma> X C S B N K D" and "mul_commutes A"
  shows "\<exists>SL \<sigma>'. scaled_l2 A X C S \<sigma> = (Inr SL, \<sigma>') \<and> shape SL = [B, N, K]
     \<and> (\<forall>b<B. \<forall>i<N. \<forall>k<K.
          rd \<sigma>' SL [b, i, k] = el_mul A (rd \<sigma> S [k])
            (el_sum A (map (\<lambda>d. el_pow A (el_sub A (rd \<sigma> X [b, i, d]) (rd \<sigma> C [k, d])) 2)
               [0..<D])))"
proof -
  from assms(1) have "tensor_ok \<sigma> X [B, N, D]" "tensor_ok \<sigma> C [K, D]" "tensor_ok \<sigma> S [K]"
    "is_cuda C = is_cuda X" "is_cuda S = is_cuda X" "D = D \<or> D = 1"
    by (simp_all add: valid_inputs_def)
  from forward_result [OF this, of A] obtain SL \<sigma>'
    where run: "scaled_l2 A X C S \<sigma> = (Inr SL, \<sigma>')" and sh: "shape SL = [B, N, K]"
      and elt: "\<forall>b<B. \<forall>i<N. \<forall>k<K.
          rd \<sigma>' SL [b, i, k] = el_mul A
            (el_sum A (map (\<lambda>d. el_pow A
               (el_sub A (rd \<sigma> X [b, i, if D = D then d else 0]) (rd \<sigma> C [k, d])) 2) [0..<D]))
            (rd \<sigma> S [k])"
    by blast
  from assms(2) have comm: "\<And>x y. el_mul A x y = el_mul A y x"
    by (simp add: mul_commutes_def)
  from elt have "\<forall>b<B. \<forall>i<N. \<forall>k<K.
          rd \<sigma>' SL [b, i, k] = el_mul A (rd \<sigma> S [k])
            (el_sum A (map (\<lambda>d. el_pow A (el_sub A (rd \<sigma> X [b, i, d]) (rd \<sigma> C [k, d])) 2)
               [0..<D]))"
    by (simp add: comm [of _ "rd \<sigma> S _"])
  with run sh show ?thesis by blast
qed

theorem scaled_l2_formula_witness:
  "valid_inputs (state_of [[Fin 2], [Fin 0], [Fin 2]] [])
       (fresh 0 [1, 1, 1] False) (fresh 1 [1, 1] False) (fresh 2 [1] False) 1 1 1 1
   \<and> mul_commutes exact_arith
   \<and> (\<exists>SL \<sigma>'. scaled_l2 exact_arith (fresh 0 [1, 1, 1] False) (fresh 1 [1, 1] False)
        (fresh 2 [1] False) (state_of [[Fin 2], [Fin 0], [Fin 2]] []) = (Inr SL, \<sigma>')
     \<and> shape SL = [1, 1, 1] \<and> elements \<sigma>' SL = [Fin 8])"
proof -
  let ?\<sigma> = "state_of [[Fin 2], [Fin 0], [Fin 2]] []"
  let ?X = "fresh 0 [1, 1, 1] False" and ?C = "fresh 1 [1, 1] False" and ?S = "fresh 2 [1] False"
  have ok: "valid_inputs ?\<sigma> ?X ?C ?S 1 1 1 1"
    by (simp add: example_defs)
  from scaled_l2_formula [OF ok exact_mul_commutes] obtain SL \<sigma>'
    where run: "scaled_l2 exact_arith ?X ?C ?S ?\<sigma> = (Inr SL, \<sigma>')" and sh: "shape SL = [1, 1, 1]"
      and elt: "\<forall>b<1. \<forall>i<1. \<forall>k<1. rd \<sigma>' SL [b, i, k] = el_mul exact_arith (rd ?\<sigma> ?S [k])
            (el_sum exact_arith (map (\<lambda>d. el_pow exact_arith
               (el_sub exact_arith (rd ?\<sigma> ?X [b, i, d]) (rd ?\<sigma> ?C [k, d])) 2) [0..<1]))"
    by blast
  from elt have "rd \<sigma>' SL [0, 0, 0] = Fin 8"
    by (simp add: example_defs eval_nat_numeral)
  then have "elements \<sigma>' SL = [Fin 8]"
    by (simp add: elements_def sh indices.simps)
  with ok run sh exact_mul_commutes show ?thesis by blast
qed










end
